theory Spec2Isabelle
  imports Complex_Main "HOL-Library.Extended_Nat" "HOL-Library.AList"
begin

section \<open>Errors and the process-wide initializer\<close>

text \<open>
  Python exceptions are values. \<open>AssertionError\<close> is what a failed \<^verbatim>\<open>assert\<close> raises,
  \<open>ValueError\<close> is raised by \<^verbatim>\<open>get_replay_buffer\<close>, \<open>KeyError\<close> by a dictionary lookup
  of an absent key, \<open>TypeError\<close> by \<^verbatim>\<open>ray.wait\<close> on a list holding something that is
  not an object id, and \<open>RayTaskError\<close> by \<^verbatim>\<open>ray.get\<close> on a job whose rollout failed.
\<close>

datatype error =
  AssertionError string
  | ValueError string
  | KeyError
  | TypeError
  | RayTaskError

text \<open>
  \<^verbatim>\<open>rlil/initializer.py\<close>: the module-level variable \<^verbatim>\<open>_REPLAY_BUFFER\<close>, initially
  \<^verbatim>\<open>None\<close>. A replay buffer is a Python object, held by reference.
\<close>

type_synonym ref = nat

record initializer =
  REPLAY_BUFFER :: "ref option"

definition initializer_module :: initializer where
  "initializer_module = \<lparr>REPLAY_BUFFER = None\<rparr>"

definition set_replay_buffer :: "initializer \<Rightarrow> ref \<Rightarrow> initializer" where
  "set_replay_buffer g replay_buffer = g\<lparr>REPLAY_BUFFER := Some replay_buffer\<rparr>"

definition get_replay_buffer :: "initializer \<Rightarrow> error + ref" where
  "get_replay_buffer g =
     (case REPLAY_BUFFER g of
        None \<Rightarrow> Inl (ValueError ''replay_buffer is not set'')
      | Some b \<Rightarrow> Inr b)"

section \<open>The asynchronous sampler\<close>

text \<open>
  \<^verbatim>\<open>rlil/samplers/asyncsampler.py\<close>. A worker is a remote actor, named here by its
  position in the pool. A job submitted with \<^verbatim>\<open>worker.sample.remote(...)\<close> is recorded
  in the runtime's list of submitted jobs, and the object id returned to the caller is
  the position of the job in that list. The budgets are numbers or \<^verbatim>\<open>np.inf\<close>.
\<close>

type_synonym worker = nat
type_synonym object_id = nat

record 'agent job =
  job_worker :: worker
  job_agent :: 'agent
  job_max_frames :: enat
  job_max_episodes :: enat

type_synonym 'agent ray = "'agent job list"

definition sample_remote ::
  "'agent ray \<Rightarrow> worker \<Rightarrow> 'agent \<Rightarrow> enat \<Rightarrow> enat \<Rightarrow> object_id \<times> 'agent ray" where
  "sample_remote r w lazy_agent max_frames max_episodes =
     (length r,
      r @ [\<lparr>job_worker = w, job_agent = lazy_agent,
             job_max_frames = max_frames, job_max_episodes = max_episodes\<rparr>])"

text \<open>
  The fields \<^verbatim>\<open>_workers\<close>, \<^verbatim>\<open>_work_ids\<close> and \<^verbatim>\<open>_replay_buffer\<close> of the sampler.
  \<^verbatim>\<open>_work_ids\<close> is a dictionary from worker to \<^verbatim>\<open>None\<close> or an object id, iterated in
  insertion order by \<^verbatim>\<open>store_samples\<close>: an association list.
\<close>

record sampler =
  workers :: "worker list"
  work_ids :: "(worker \<times> object_id option) list"
  replay_buffer :: ref

text \<open>
  \<^verbatim>\<open>AsyncSampler.__init__\<close>: one worker per index of \<^verbatim>\<open>range(num_workers)\<close>, every
  work id \<^verbatim>\<open>None\<close>, and the replay buffer read from the initializer last.
\<close>

definition AsyncSampler_init :: "initializer \<Rightarrow> int \<Rightarrow> error + sampler" where
  "AsyncSampler_init g num_workers =
     (let ws = [0..<nat num_workers];
          ids = map (\<lambda>worker. (worker, None)) ws
      in case get_replay_buffer g of
           Inl e \<Rightarrow> Inl e
         | Inr b \<Rightarrow> Inr \<lparr>workers = ws, work_ids = ids, replay_buffer = b\<rparr>)"

text \<open>
  The loop of \<^verbatim>\<open>start_sampling\<close> over \<^verbatim>\<open>self._workers\<close>: a worker whose work id is
  \<^verbatim>\<open>None\<close> gets a new job, whose object id is written into \<^verbatim>\<open>_work_ids\<close>.
\<close>

fun dispatch_loop ::
  "'agent \<Rightarrow> enat \<Rightarrow> enat \<Rightarrow> worker list \<Rightarrow> (worker \<times> object_id option) list \<Rightarrow> 'agent ray
     \<Rightarrow> error + ((worker \<times> object_id option) list \<times> 'agent ray)" where
  "dispatch_loop lazy_agent max_frames max_episodes [] ids r = Inr (ids, r)"
| "dispatch_loop lazy_agent max_frames max_episodes (w # ws) ids r =
     (case map_of ids w of
        None \<Rightarrow> Inl KeyError
      | Some None \<Rightarrow>
          (case sample_remote r w lazy_agent max_frames max_episodes of
             (oid, r') \<Rightarrow>
               dispatch_loop lazy_agent max_frames max_episodes ws
                 (AList.update w (Some oid) ids) r')
      | Some (Some busy) \<Rightarrow> dispatch_loop lazy_agent max_frames max_episodes ws ids r)"

definition start_sampling ::
  "sampler \<Rightarrow> 'agent ray \<Rightarrow> 'agent \<Rightarrow> enat \<Rightarrow> enat \<Rightarrow> error + (sampler \<times> 'agent ray)" where
  "start_sampling s r lazy_agent max_frames max_episodes =
     (if \<not> (max_frames \<noteq> \<infinity> \<or> max_episodes \<noteq> \<infinity>)
      then Inl (AssertionError ''max_frames or max_episodes must be specified'')
      else case dispatch_loop lazy_agent max_frames max_episodes (workers s) (work_ids s) r of
             Inl e \<Rightarrow> Inl e
           | Inr (ids, r') \<Rightarrow> Inr (s\<lparr>work_ids := ids\<rparr>, r'))"

text \<open>
  \<^verbatim>\<open>ray.wait([_id], num_returns=1, timeout=timeout)\<close> on a one-element list. The
  library checks that every element is an object id and raises \<^verbatim>\<open>TypeError\<close>
  otherwise; \<open>ready\<close> says which jobs complete within the timeout of this call. The
  result is the pair of the ready and the remaining ids.
\<close>

definition ray_wait ::
  "(object_id \<Rightarrow> bool) \<Rightarrow> object_id option \<Rightarrow> error + (object_id list \<times> object_id list)" where
  "ray_wait ready oid =
     (case oid of
        None \<Rightarrow> Inl TypeError
      | Some i \<Rightarrow> if ready i then Inr ([i], []) else Inr ([], [i]))"

text \<open>
  \<^verbatim>\<open>ray.get\<close> returns the batch of a completed job, or raises when the rollout failed.
\<close>

type_synonym 'batch results = "object_id \<Rightarrow> error + 'batch"

text \<open>
  A replay buffer is seen by the sampler through \<^verbatim>\<open>store\<close> only: the heap maps its
  reference to the batches stored so far, in call order.
\<close>

type_synonym 'batch heap = "ref \<Rightarrow> 'batch list"

definition buffer_store :: "'batch heap \<Rightarrow> ref \<Rightarrow> 'batch \<Rightarrow> 'batch heap" where
  "buffer_store h b batch = h(b := h b @ [batch])"

record sample_info =
  info_frames :: int
  info_episodes :: int

text \<open>
  The loop of \<^verbatim>\<open>store_samples\<close> over \<^verbatim>\<open>self._work_ids.items()\<close>. The call of
  \<^verbatim>\<open>ray.wait\<close> with the timeout is the parameter \<open>wait\<close>, which is \<open>ray_wait ready\<close>
  for the library; every item is passed to it, whatever its work id.
\<close>

type_synonym wait = "object_id option \<Rightarrow> error + (object_id list \<times> object_id list)"

fun store_loop ::
  "wait \<Rightarrow> 'batch results \<Rightarrow> ref \<Rightarrow> (worker \<times> object_id option) list
     \<Rightarrow> 'batch heap \<Rightarrow> error + 'batch heap" where
  "store_loop wait get b [] h = Inr h"
| "store_loop wait get b ((worker, oid) # items) h =
     (case wait oid of
        Inl e \<Rightarrow> Inl e
      | Inr (ready_id, remaining_id) \<Rightarrow>
          if length ready_id > 0
          then (case get (hd ready_id) of
                  Inl e \<Rightarrow> Inl e
                | Inr batch \<Rightarrow> store_loop wait get b items (buffer_store h b batch))
          else store_loop wait get b items h)"

text \<open>
  \<^verbatim>\<open>store_samples\<close> has no \<^verbatim>\<open>return\<close> statement and assigns no field of the sampler:
  the value returned is Python's \<^verbatim>\<open>None\<close>, and the sampler is the one it was called on.
\<close>

definition store_samples ::
  "sampler \<Rightarrow> wait \<Rightarrow> 'batch results \<Rightarrow> 'batch heap
     \<Rightarrow> error + (sampler \<times> 'batch heap \<times> sample_info option)" where
  "store_samples s wait get h =
     (case store_loop wait get (replay_buffer s) (work_ids s) h of
        Inl e \<Rightarrow> Inl e
      | Inr h' \<Rightarrow> Inr (s, h', None))"

text \<open>
  The jobs that the runtime holds for a worker, as object ids in submission order, and
  the bookkeeping invariant of the sampler: the runtime holds for every worker exactly
  the job recorded in \<^verbatim>\<open>_work_ids\<close>, and none for a worker recorded as idle.
\<close>

definition jobs_of :: "'agent ray \<Rightarrow> worker \<Rightarrow> object_id list" where
  "jobs_of r w = filter (\<lambda>i. job_worker (r ! i) = w) [0..<length r]"

definition one_job_per_unit :: "(worker \<times> object_id option) list \<Rightarrow> 'agent ray \<Rightarrow> bool" where
  "one_job_per_unit ids r \<longleftrightarrow>
     (\<forall>w. jobs_of r w = (case map_of ids w of Some (Some i) \<Rightarrow> [i] | _ \<Rightarrow> []))"

section \<open>The sampling unit\<close>

text \<open>
  \<^verbatim>\<open>Worker\<close> of \<^verbatim>\<open>rlil/samplers/asyncsampler.py\<close>. The environment and the lazy agent are
  collaborators of the worker. An environment is a state with \<^verbatim>\<open>reset\<close>, \<^verbatim>\<open>step\<close>, the
  flag \<^verbatim>\<open>done\<close> and what the agent is shown of it (\<^verbatim>\<open>state\<close> and \<^verbatim>\<open>reward\<close>); a lazy
  agent is a state (its parameters and its buffer) with \<^verbatim>\<open>act\<close>, which returns the action
  and the agent with the observation recorded.
\<close>

record ('e, 'act, 'obs) environment =
  env_reset :: "'e \<Rightarrow> 'e"
  env_step :: "'e \<Rightarrow> 'act \<Rightarrow> 'e"
  env_done :: "'e \<Rightarrow> bool"
  env_obs :: "'e \<Rightarrow> 'obs"

type_synonym ('g, 'obs, 'act) lazy_agent = "'g \<Rightarrow> 'obs \<Rightarrow> 'act \<times> 'g"

text \<open>The fields \<^verbatim>\<open>_env\<close>, \<^verbatim>\<open>_frames\<close> and \<^verbatim>\<open>_episodes\<close> of a worker.\<close>

record 'e Worker =
  env :: 'e
  frames :: nat
  episodes :: nat

text \<open>
  The budgets \<^verbatim>\<open>max_frames\<close> and \<^verbatim>\<open>max_episodes\<close> are Python numbers: an int or a
  float, \<^verbatim>\<open>np.inf\<close> included (the defaults of \<^verbatim>\<open>start_sampling\<close> are floats). The
  counters are ints, and Python compares an int with a float exactly, so a finite budget is
  the real number it denotes; every comparison with \<^verbatim>\<open>nan\<close> is false.
\<close>

datatype number = Num real | PosInf | NegInf | NaN

text \<open>\<^verbatim>\<open>n < b\<close> for an int counter \<open>n\<close> and a budget \<open>b\<close>.\<close>

fun lt :: "nat \<Rightarrow> number \<Rightarrow> bool" where
  "lt n (Num x) \<longleftrightarrow> real n < x"
| "lt n PosInf \<longleftrightarrow> True"
| "lt n NegInf \<longleftrightarrow> False"
| "lt n NaN \<longleftrightarrow> False"

text \<open>
  The inner loop of \<^verbatim>\<open>Worker.sample\<close>, \<^verbatim>\<open>while not self._env.done\<close>: step, count the
  frame, ask the agent for the next action. It runs until the environment reports the end
  of the episode, which an environment may never do: the loop is a partial function, and
  \<open>None\<close> is the run that does not return.
\<close>

partial_function (option) episode_loop ::
  "('e, 'act, 'obs) environment \<Rightarrow> ('g, 'obs, 'act) lazy_agent \<Rightarrow> 'e Worker \<Rightarrow> 'act \<Rightarrow> 'g
     \<Rightarrow> ('e Worker \<times> 'g) option" where
  "episode_loop E act w action g =
     (if \<not> env_done E (env w)
      then (case act g (env_obs E (env_step E (env w) action)) of
              (action', g') \<Rightarrow>
                episode_loop E act
                  (w\<lparr>env := env_step E (env w) action, frames := frames w + 1\<rparr>) action' g')
      else Some (w, g))"

text \<open>
  The outer loop, \<^verbatim>\<open>while self._frames < max_frames and self._episodes < max_episodes\<close>:
  reset the environment, ask the agent for the first action, run the episode, count it.
\<close>

partial_function (option) sample_loop ::
  "('e, 'act, 'obs) environment \<Rightarrow> ('g, 'obs, 'act) lazy_agent \<Rightarrow> number \<Rightarrow> number
     \<Rightarrow> 'e Worker \<Rightarrow> 'g \<Rightarrow> ('e Worker \<times> 'g) option" where
  "sample_loop E act max_frames max_episodes w g =
     (if lt (frames w) max_frames \<and> lt (episodes w) max_episodes
      then (case act g (env_obs E (env_reset E (env w))) of
              (action, g1) \<Rightarrow>
                (case episode_loop E act (w\<lparr>env := env_reset E (env w)\<rparr>) action g1 of
                   None \<Rightarrow> None
                 | Some (w2, g2) \<Rightarrow>
                     sample_loop E act max_frames max_episodes
                       (w2\<lparr>episodes := episodes w2 + 1\<rparr>) g2))
      else Some (w, g))"

text \<open>
  \<^verbatim>\<open>Worker.sample\<close>: both counters start at zero; what is returned is built from the
  buffer of the agent, so the result is the worker and the agent after the rollout.
\<close>

definition sample ::
  "('e, 'act, 'obs) environment \<Rightarrow> ('g, 'obs, 'act) lazy_agent \<Rightarrow> 'e Worker \<Rightarrow> 'g
     \<Rightarrow> number \<Rightarrow> number \<Rightarrow> ('e Worker \<times> 'g) option" where
  "sample E act w lazy_agent max_frames max_episodes =
     sample_loop E act max_frames max_episodes (w\<lparr>frames := 0, episodes := 0\<rparr>) lazy_agent"

text \<open>
  One pass through the body of the outer loop, on its own: one whole episode, from the reset
  to the count. \<open>rollout E act k w g\<close> is the worker and the agent after \<open>k\<close> such passes
  from \<open>w\<close> and \<open>g\<close>, whatever the budgets; it names the states in which
  \<^verbatim>\<open>Worker.sample\<close> tests its loop condition.
\<close>

definition episode ::
  "('e, 'act, 'obs) environment \<Rightarrow> ('g, 'obs, 'act) lazy_agent \<Rightarrow> 'e Worker \<Rightarrow> 'g
     \<Rightarrow> ('e Worker \<times> 'g) option" where
  "episode E act w g =
     (case act g (env_obs E (env_reset E (env w))) of
        (action, g1) \<Rightarrow>
          (case episode_loop E act (w\<lparr>env := env_reset E (env w)\<rparr>) action g1 of
             None \<Rightarrow> None
           | Some (w2, g2) \<Rightarrow> Some (w2\<lparr>episodes := episodes w2 + 1\<rparr>, g2)))"

fun rollout ::
  "('e, 'act, 'obs) environment \<Rightarrow> ('g, 'obs, 'act) lazy_agent \<Rightarrow> nat \<Rightarrow> 'e Worker \<Rightarrow> 'g
     \<Rightarrow> ('e Worker \<times> 'g) option" where
  "rollout E act 0 w g = Some (w, g)"
| "rollout E act (Suc k) w g =
     (case rollout E act k w g of
        None \<Rightarrow> None
      | Some (w1, g1) \<Rightarrow> episode E act w1 g1)"

text \<open>
  An environment and an agent to run the worker on: every episode of \<open>countdown n\<close>
  lasts \<open>n\<close> steps and shows the number of steps left, and \<open>recorder\<close> keeps every
  observation it is asked to act on.
\<close>

definition countdown :: "nat \<Rightarrow> (nat, unit, nat) environment" where
  "countdown n = \<lparr>env_reset = (\<lambda>e. n), env_step = (\<lambda>e a. e - 1), env_done = (\<lambda>e. e = 0),
                  env_obs = (\<lambda>e. e)\<rparr>"

definition recorder :: "(nat list, nat, unit) lazy_agent" where
  "recorder g obs = ((), g @ [obs])"

section \<open>The replay buffers\<close>

text \<open>
  The package \<^verbatim>\<open>rlil.memory\<close> (\<^verbatim>\<open>ExperienceReplayBuffer\<close>,
  \<^verbatim>\<open>NStepReplayBuffer\<close>, \<^verbatim>\<open>PrioritizedReplayBuffer\<close>) is used by
  \<^verbatim>\<open>tests/memory/replay_buffer_test.py\<close> but its code is not among the sources.  The
  buffers below follow sections 4.3 to 4.5 of the specification; the fixtures
  \<open>raw\<close>, \<open>test_run\<close>, \<open>terminal\<close>, \<open>running\<close> and \<open>test_done\<close> are the
  inputs of \<^verbatim>\<open>TestNStepReplayBuffer\<close>.
\<close>

text \<open>Modelled from the spec: the class \<^verbatim>\<open>State\<close> of \<^verbatim>\<open>rlil.environments\<close>, an
  observation with its mask; a mask of \<open>False\<close> marks a terminal state.\<close>

record 'f State =
  features :: 'f
  mask :: bool

text \<open>Modelled from the spec: a stored transition, the tuple
  \<^verbatim>\<open>(state, action, reward, next_state)\<close> that \<^verbatim>\<open>store\<close> receives.\<close>

record ('f, 'a) Transition =
  state :: "'f State"
  action :: 'a
  reward :: real
  next_state :: "'f State"

text \<open>Modelled from the spec: \<^verbatim>\<open>rlil.memory.ExperienceReplayBuffer\<close>, a fixed-capacity
  ring of transitions with the position of the next overwrite.\<close>

record 't ExperienceReplayBuffer =
  capacity :: nat
  buffer :: "'t list"
  pos :: nat

text \<open>Modelled from the spec: \<^verbatim>\<open>ExperienceReplayBuffer.__init__(size)\<close>, an empty buffer
  of the given capacity.\<close>

definition ExperienceReplayBuffer :: "nat \<Rightarrow> 't ExperienceReplayBuffer" where
  "ExperienceReplayBuffer buffer_size = \<lparr>capacity = buffer_size, buffer = [], pos = 0\<rparr>"

text \<open>Modelled from the spec: \<^verbatim>\<open>ExperienceReplayBuffer.store\<close>, which appends while
  there is room and then overwrites the oldest slot in ring order.\<close>

definition store :: "'t ExperienceReplayBuffer \<Rightarrow> 't \<Rightarrow> 't ExperienceReplayBuffer" where
  "store b t =
     b\<lparr>buffer := (if length (buffer b) < capacity b then buffer b @ [t]
                   else (buffer b)[pos b := t]),
        pos := (pos b + 1) mod capacity b\<rparr>"

text \<open>Modelled from the spec: \<^verbatim>\<open>ExperienceReplayBuffer.__len__\<close>, the number of valid
  slots.\<close>

definition len :: "'t ExperienceReplayBuffer \<Rightarrow> nat" where
  "len b = length (buffer b)"

text \<open>Modelled from the spec: \<^verbatim>\<open>rlil.memory.NStepReplayBuffer\<close>, which wraps an inner
  buffer with a step count, a discount factor and the window of pending transitions.\<close>

record ('f, 'a) NStepReplayBuffer =
  steps :: nat
  discount_factor :: real
  inner :: "('f, 'a) Transition ExperienceReplayBuffer"
  window :: "('f, 'a) Transition list"

text \<open>Modelled from the spec: \<^verbatim>\<open>NStepReplayBuffer.__init__(steps, discount_factor,
  buffer)\<close>, with an empty window.\<close>

definition NStepReplayBuffer ::
  "nat \<Rightarrow> real \<Rightarrow> ('f, 'a) Transition ExperienceReplayBuffer \<Rightarrow> ('f, 'a) NStepReplayBuffer" where
  "NStepReplayBuffer n gamma b = \<lparr>steps = n, discount_factor = gamma, inner = b, window = []\<rparr>"

text \<open>Modelled from the spec: the discounted return of a window of \<open>K\<close> rewards,
  \<open>R = \<Sum>k<K. \<gamma> ^ k * r k\<close>, computed inside \<^verbatim>\<open>NStepReplayBuffer.store\<close>.\<close>

definition nstep_return :: "real \<Rightarrow> real list \<Rightarrow> real" where
  "nstep_return gamma rs = (\<Sum>k<length rs. gamma ^ k * rs ! k)"

text \<open>Modelled from the spec: the transition that \<^verbatim>\<open>NStepReplayBuffer.store\<close> synthesizes
  from a window: the first state and action, the discounted return, the last next state.\<close>

definition synthesize :: "real \<Rightarrow> ('f, 'a) Transition list \<Rightarrow> ('f, 'a) Transition" where
  "synthesize gamma w =
     \<lparr>state = state (hd w), action = action (hd w),
      reward = nstep_return gamma (map reward w),
      next_state = next_state (last w)\<rparr>"

text \<open>Modelled from the spec: one flush of \<^verbatim>\<open>NStepReplayBuffer.store\<close>: the synthesized
  transition goes to the inner buffer and the window slides by one position.\<close>

definition flush :: "('f, 'a) NStepReplayBuffer \<Rightarrow> ('f, 'a) NStepReplayBuffer" where
  "flush nb =
     nb\<lparr>inner := store (inner nb) (synthesize (discount_factor nb) (window nb)),
        window := tl (window nb)\<rparr>"

text \<open>Modelled from the spec: the flushes of \<^verbatim>\<open>NStepReplayBuffer.store\<close> on a terminal
  transition: every remaining partial window, from its start to the terminal transition.\<close>

fun flush_all ::
  "real \<Rightarrow> ('f, 'a) Transition list \<Rightarrow> ('f, 'a) Transition ExperienceReplayBuffer
     \<Rightarrow> ('f, 'a) Transition ExperienceReplayBuffer" where
  "flush_all gamma [] b = b"
| "flush_all gamma (t # w) b = flush_all gamma w (store b (synthesize gamma (t # w)))"

text \<open>Modelled from the spec: \<^verbatim>\<open>NStepReplayBuffer.store\<close>: push the raw transition into
  the window, flush once when the window holds \<open>steps\<close> transitions, and on a terminal
  transition flush the remaining partial windows as well.\<close>

definition NStep_store ::
  "('f, 'a) NStepReplayBuffer \<Rightarrow> ('f, 'a) Transition \<Rightarrow> ('f, 'a) NStepReplayBuffer" where
  "NStep_store nb t =
     (let nb1 = nb\<lparr>window := window nb @ [t]\<rparr>;
          nb2 = (if length (window nb1) = steps nb1 then flush nb1 else nb1)
      in if \<not> mask (next_state t)
         then nb2\<lparr>inner := flush_all (discount_factor nb2) (window nb2) (inner nb2),
                  window := []\<rparr>
         else nb2)"

text \<open>Modelled from the spec: \<^verbatim>\<open>NStepReplayBuffer.__len__\<close>, which delegates to the inner
  buffer.\<close>

definition NStep_len :: "('f, 'a) NStepReplayBuffer \<Rightarrow> nat" where
  "NStep_len nb = len (inner nb)"

text \<open>\<^verbatim>\<open>TestNStepReplayBuffer.test_run\<close>: transition \<open>i\<close> has state, action and reward \<open>i\<close>
  and next state \<open>i + 1\<close>; the buffer has four steps, discount one half and an inner buffer of
  capacity 100.\<close>

definition raw :: "nat \<Rightarrow> (nat, nat) Transition" where
  "raw i = \<lparr>state = \<lparr>features = i, mask = True\<rparr>, action = i, reward = real i,
            next_state = \<lparr>features = i + 1, mask = True\<rparr>\<rparr>"

definition test_run :: "nat \<Rightarrow> (nat, nat) NStepReplayBuffer" where
  "test_run n =
     foldl NStep_store (NStepReplayBuffer 4 (1 / 2) (ExperienceReplayBuffer 100))
       (map raw [0..<n])"

text \<open>\<^verbatim>\<open>TestNStepReplayBuffer.test_done\<close>: one state, action 0 and reward 1 throughout; the
  stores are terminal, running, running, terminal, terminal.\<close>

definition terminal :: "(nat, nat) Transition" where
  "terminal = \<lparr>state = \<lparr>features = 1, mask = True\<rparr>, action = 0, reward = 1,
                next_state = \<lparr>features = 1, mask = False\<rparr>\<rparr>"

definition running :: "(nat, nat) Transition" where
  "running = \<lparr>state = \<lparr>features = 1, mask = True\<rparr>, action = 0, reward = 1,
               next_state = \<lparr>features = 1, mask = True\<rparr>\<rparr>"

definition test_done :: "nat \<Rightarrow> (nat, nat) NStepReplayBuffer" where
  "test_done n =
     foldl NStep_store (NStepReplayBuffer 4 (1 / 2) (ExperienceReplayBuffer 100))
       (take n [terminal, running, running, terminal, terminal])"




text \<open>\<^verbatim>\<open>TestPrioritizedReplayBuffer.test_run\<close> in \<^verbatim>\<open>tests/memory/replay_buffer_test.py\<close>:
  the weights expected from its seven \<^verbatim>\<open>sample(3)\<close> calls, one row per call.\<close>

definition expected_weights :: "real list list" where
  "expected_weights =
     [[1, 1, 1],
      [5659 / 10000, 7036 / 10000, 5124 / 10000],
      [631 / 10000, 631 / 10000, 631 / 10000],
      [631 / 10000, 631 / 10000, 1231 / 10000],
      [631 / 10000, 631 / 10000, 631 / 10000],
      [776 / 10000, 631 / 10000, 631 / 10000],
      [866 / 10000, 866 / 10000, 866 / 10000]]"

text \<open>\<^verbatim>\<open>np.testing.assert_array_almost_equal(x, y, decimal)\<close>, with which the test compares
  the returned weights with the expected ones: the shapes agree and
  \<^verbatim>\<open>abs(x - y) < 1.5 * 10 ** (-decimal)\<close> holds elementwise.\<close>

definition assert_array_almost_equal :: "real list \<Rightarrow> real list \<Rightarrow> nat \<Rightarrow> bool" where
  "assert_array_almost_equal x y decimal \<longleftrightarrow>
     list_all2 (\<lambda>a b. \<bar>a - b\<bar> < 15 / 10 ^ (decimal + 1)) x y"

section \<open>Properties of the asynchronous sampler\<close>

lemma jobs_of_Nil: "jobs_of [] w = []"
  by (simp add: jobs_of_def)

lemma jobs_of_snoc:
  "jobs_of (r @ [j]) w = jobs_of r w @ (if job_worker j = w then [length r] else [])"
proof -
  have "filter (\<lambda>i. job_worker ((r @ [j]) ! i) = w) [0..<length r]
      = filter (\<lambda>i. job_worker (r ! i) = w) [0..<length r]"
    by (rule filter_cong) (simp_all add: nth_append)
  then show ?thesis by (simp add: jobs_of_def)
qed

lemma dispatch_loop_inv:
  "dispatch_loop a mf me ws ids r = Inr (ids', r') \<Longrightarrow> one_job_per_unit ids r \<Longrightarrow>
     one_job_per_unit ids' r' \<and>
     (\<forall>w. map_of ids w \<noteq> Some None \<longrightarrow> map_of ids' w = map_of ids w \<and> jobs_of r' w = jobs_of r w) \<and>
     take (length r) r' = r"
proof (induction ws arbitrary: ids r)
  case Nil
  then show ?case by simp
next
  case (Cons w ws)
  show ?case
  proof (cases "map_of ids w")
    case None
    with Cons.prems show ?thesis by simp
  next
    case (Some v)
    show ?thesis
    proof (cases v)
      case None
      let ?j = "\<lparr>job_worker = w, job_agent = a, job_max_frames = mf, job_max_episodes = me\<rparr>"
      let ?ids = "AList.update w (Some (length r)) ids"
      from Cons.prems(1) Some None
      have run: "dispatch_loop a mf me ws ?ids (r @ [?j]) = Inr (ids', r')"
        by (simp add: sample_remote_def)
      have inv: "one_job_per_unit ?ids (r @ [?j])"
        using Cons.prems(2) Some None
        by (auto simp: one_job_per_unit_def jobs_of_snoc update_conv' split: option.splits)
      from Cons.IH[OF run inv]
      have 1: "one_job_per_unit ids' r'"
        and 2: "\<And>u. map_of ?ids u \<noteq> Some None \<Longrightarrow>
                  map_of ids' u = map_of ?ids u \<and> jobs_of r' u = jobs_of (r @ [?j]) u"
        and 3: "take (Suc (length r)) r' = r @ [?j]"
        by auto
      have "take (length r) (take (Suc (length r)) r') = r"
        unfolding 3 by simp
      then have 4: "take (length r) r' = r" by simp 
      have "map_of ids' u = map_of ids u \<and> jobs_of r' u = jobs_of r u"
        if "map_of ids u \<noteq> Some None" for u
      proof -
        from that Some None have "u \<noteq> w" by auto
        then show ?thesis using 2[of u] that by (simp add: update_conv' jobs_of_snoc)
      qed
      with 1 4 show ?thesis by blast
    next
      case (Some busy)
      with Cons.prems \<open>map_of ids w = Some v\<close>
      have "dispatch_loop a mf me ws ids r = Inr (ids', r')" by simp
      from Cons.IH[OF this Cons.prems(2)] show ?thesis .
    qed
  qed
qed

lemma dispatch_loop_total:
  "set ws \<subseteq> fst ` set ids \<Longrightarrow> \<exists>ids' r'. dispatch_loop a mf me ws ids r = Inr (ids', r')"
proof (induction ws arbitrary: ids r)
  case Nil
  then show ?case by simp
next
  case (Cons w ws)
  from Cons.prems have k: "w \<in> fst ` set ids" and rest: "set ws \<subseteq> fst ` set ids" by auto
  from k obtain v where v: "map_of ids w = Some v"
    by (metis domD dom_map_of_conv_image_fst)
  show ?case
  proof (cases v)
    case None
    have "set ws \<subseteq> fst ` set (AList.update w (Some (length r)) ids)"
      using rest by (auto simp: AList.dom_update)
    from Cons.IH[OF this] show ?thesis using v None by (simp add: sample_remote_def)
  next
    case (Some j)
    from Cons.IH[OF rest] show ?thesis using v Some by simp
  qed
qed


subsection \<open>Budgets of \<^verbatim>\<open>start_sampling\<close>\<close>

text \<open>
  C6: \<^verbatim>\<open>start_sampling\<close> raises, before any job is dispatched, if and only if both
  \<^verbatim>\<open>max_frames\<close> and \<^verbatim>\<open>max_episodes\<close> are infinite, and then the error is the failed
  assertion; with at least one finite budget it returns. The sampler is one whose
  dictionary of work ids has every worker of the pool as a key, as the constructor
  builds it.
\<close>

theorem start_sampling_raises_iff_both_infinite:
  "set (workers s) \<subseteq> fst ` set (work_ids s) \<Longrightarrow>
   (isl (start_sampling s r a mf me) \<longleftrightarrow> mf = \<infinity> \<and> me = \<infinity>) \<and>
   (mf = \<infinity> \<and> me = \<infinity> \<longrightarrow>
      start_sampling s r a mf me
        = Inl (AssertionError ''max_frames or max_episodes must be specified''))"
  using dispatch_loop_total[of "workers s" "work_ids s" a mf me r]
  by (auto simp: start_sampling_def)

theorem start_sampling_raises_iff_both_infinite_witness:
  "set (workers \<lparr>workers = [0, 1], work_ids = [(0, None), (1, None)], replay_buffer = 7\<rparr>) \<subseteq> fst ` set (work_ids \<lparr>workers = [0, 1], work_ids = [(0, None), (1, None)], replay_buffer = 7\<rparr>)
   \<and> start_sampling \<lparr>workers = [0, 1], work_ids = [(0, None), (1, None)], replay_buffer = 7\<rparr> [] () \<infinity> \<infinity>
       = Inl (AssertionError ''max_frames or max_episodes must be specified'')
   \<and> \<not> isl (start_sampling \<lparr>workers = [0, 1], work_ids = [(0, None), (1, None)], replay_buffer = 7\<rparr> [] () 50 \<infinity>)
   \<and> \<not> isl (start_sampling \<lparr>workers = [0, 1], work_ids = [(0, None), (1, None)], replay_buffer = 7\<rparr> [] () \<infinity> 6)"
  using start_sampling_raises_iff_both_infinite [of "\<lparr>workers = [0, 1], work_ids = [(0, None), (1, None)], replay_buffer = 7\<rparr>" "[]" "()" \<infinity> \<infinity>]
        start_sampling_raises_iff_both_infinite [of "\<lparr>workers = [0, 1], work_ids = [(0, None), (1, None)], replay_buffer = 7\<rparr>" "[]" "()" 50 \<infinity>]
        start_sampling_raises_iff_both_infinite [of "\<lparr>workers = [0, 1], work_ids = [(0, None), (1, None)], replay_buffer = 7\<rparr>" "[]" "()" \<infinity> 6]
  by simp

subsection \<open>One job per unit\<close>

text \<open>
  C7: \<^verbatim>\<open>start_sampling\<close> keeps the bookkeeping invariant, so the runtime never holds
  two jobs for one worker; a worker recorded as busy keeps its work id and receives no
  job, and no job submitted earlier is removed or changed.
\<close>

theorem start_sampling_one_job_per_unit:
  assumes "one_job_per_unit (work_ids s) r"
    and "start_sampling s r a mf me = Inr (s', r')"
  shows "one_job_per_unit (work_ids s') r'
    \<and> (\<forall>w. length (jobs_of r' w) \<le> 1)
    \<and> (\<forall>w i. map_of (work_ids s) w = Some (Some i) \<longrightarrow>
           map_of (work_ids s') w = Some (Some i) \<and> jobs_of r' w = jobs_of r w)
    \<and> take (length r) r' = r"
proof -
  from assms(2) obtain ids where
    run: "dispatch_loop a mf me (workers s) (work_ids s) r = Inr (ids, r')"
    and s': "s' = s\<lparr>work_ids := ids\<rparr>"
    by (auto simp: start_sampling_def split: if_splits sum.splits)
  from dispatch_loop_inv[OF run assms(1)] s'
  have a: "one_job_per_unit (work_ids s') r'"
    and b: "\<And>w. map_of (work_ids s) w \<noteq> Some None \<Longrightarrow>
              map_of (work_ids s') w = map_of (work_ids s) w \<and> jobs_of r' w = jobs_of r w"
    and c: "take (length r) r' = r" by auto
  have "length (jobs_of r' w) \<le> 1" for w
    using a by (auto simp: one_job_per_unit_def split: option.splits)
  with a b c show ?thesis by auto
qed

theorem start_sampling_one_job_per_unit_witness:
  "one_job_per_unit (work_ids \<lparr>workers = [0, 1], work_ids = [(0, Some 0), (1, None)], replay_buffer = 7\<rparr>) [\<lparr>job_worker = 0, job_agent = (), job_max_frames = 50, job_max_episodes = \<infinity>\<rparr>]
   \<and> start_sampling \<lparr>workers = [0, 1], work_ids = [(0, Some 0), (1, None)], replay_buffer = 7\<rparr> [\<lparr>job_worker = 0, job_agent = (), job_max_frames = 50, job_max_episodes = \<infinity>\<rparr>] () \<infinity> 6 = Inr (\<lparr>workers = [0, 1], work_ids = [(0, Some 0), (1, Some 1)], replay_buffer = 7\<rparr>, [\<lparr>job_worker = 0, job_agent = (), job_max_frames = 50, job_max_episodes = \<infinity>\<rparr>, \<lparr>job_worker = 1, job_agent = (), job_max_frames = \<infinity>, job_max_episodes = 6\<rparr>])
   \<and> one_job_per_unit (work_ids \<lparr>workers = [0, 1], work_ids = [(0, Some 0), (1, Some 1)], replay_buffer = 7\<rparr>) [\<lparr>job_worker = 0, job_agent = (), job_max_frames = 50, job_max_episodes = \<infinity>\<rparr>, \<lparr>job_worker = 1, job_agent = (), job_max_frames = \<infinity>, job_max_episodes = 6\<rparr>]
   \<and> map_of (work_ids \<lparr>workers = [0, 1], work_ids = [(0, Some 0), (1, Some 1)], replay_buffer = 7\<rparr>) 0 = Some (Some 0)
   \<and> jobs_of [\<lparr>job_worker = 0, job_agent = (), job_max_frames = 50, job_max_episodes = \<infinity>\<rparr>, \<lparr>job_worker = 1, job_agent = (), job_max_frames = \<infinity>, job_max_episodes = 6\<rparr>] 0 = [0]"
proof -
  have inv: "one_job_per_unit (work_ids \<lparr>workers = [0, 1], work_ids = [(0, Some 0), (1, None)], replay_buffer = 7\<rparr>) [\<lparr>job_worker = 0, job_agent = (), job_max_frames = 50, job_max_episodes = \<infinity>\<rparr>]"
    by (simp add: one_job_per_unit_def jobs_of_def)
  have run: "start_sampling \<lparr>workers = [0, 1], work_ids = [(0, Some 0), (1, None)], replay_buffer = 7\<rparr> [\<lparr>job_worker = 0, job_agent = (), job_max_frames = 50, job_max_episodes = \<infinity>\<rparr>] () \<infinity> 6 = Inr (\<lparr>workers = [0, 1], work_ids = [(0, Some 0), (1, Some 1)], replay_buffer = 7\<rparr>, [\<lparr>job_worker = 0, job_agent = (), job_max_frames = 50, job_max_episodes = \<infinity>\<rparr>, \<lparr>job_worker = 1, job_agent = (), job_max_frames = \<infinity>, job_max_episodes = 6\<rparr>])"
    by (simp add: start_sampling_def sample_remote_def)
  have old: "jobs_of [\<lparr>job_worker = 0, job_agent = (), job_max_frames = 50, job_max_episodes = \<infinity>\<rparr>] 0 = [0]"
    by (simp add: jobs_of_def)
  from start_sampling_one_job_per_unit[OF inv run] inv run old show ?thesis by simp
qed

subsection \<open>The replay buffer of the sampler\<close>

text \<open>
  C10: constructing the sampler while the initializer holds no replay buffer raises
  \<^verbatim>\<open>ValueError("replay_buffer is not set")\<close>, and that is the only way the constructor
  fails; after \<^verbatim>\<open>set_replay_buffer\<close> the constructor returns a sampler bound to that
  buffer, and neither \<^verbatim>\<open>start_sampling\<close> nor \<^verbatim>\<open>store_samples\<close> rebinds it.
\<close>

theorem AsyncSampler_init_needs_replay_buffer:
  "(REPLAY_BUFFER g = None \<longrightarrow>
      AsyncSampler_init g n = Inl (ValueError ''replay_buffer is not set''))
   \<and> (isl (AsyncSampler_init g n) \<longleftrightarrow> REPLAY_BUFFER g = None)
   \<and> (\<exists>s. AsyncSampler_init (set_replay_buffer g b) n = Inr s \<and> replay_buffer s = b)
   \<and> (start_sampling s r a mf me = Inr (s', r') \<longrightarrow> replay_buffer s' = replay_buffer s)
   \<and> (store_samples s wait get h = Inr (s'', h', ret) \<longrightarrow> replay_buffer s'' = replay_buffer s)"
proof (intro conjI)
  show "REPLAY_BUFFER g = None \<longrightarrow>
      AsyncSampler_init g n = Inl (ValueError ''replay_buffer is not set'')"
    by (simp add: AsyncSampler_init_def get_replay_buffer_def)
  show "isl (AsyncSampler_init g n) \<longleftrightarrow> REPLAY_BUFFER g = None"
    by (simp add: AsyncSampler_init_def get_replay_buffer_def Let_def split: option.splits)
  show "\<exists>s. AsyncSampler_init (set_replay_buffer g b) n = Inr s \<and> replay_buffer s = b"
    by (simp add: AsyncSampler_init_def get_replay_buffer_def set_replay_buffer_def Let_def)
  show "start_sampling s r a mf me = Inr (s', r') \<longrightarrow> replay_buffer s' = replay_buffer s"
    by (auto simp: start_sampling_def split: if_splits sum.splits)
  show "store_samples s wait get h = Inr (s'', h', ret) \<longrightarrow> replay_buffer s'' = replay_buffer s"
    by (auto simp: store_samples_def split: sum.splits)
qed

theorem AsyncSampler_init_needs_replay_buffer_witness:
  "REPLAY_BUFFER initializer_module = None
   \<and> AsyncSampler_init initializer_module 2 = Inl (ValueError ''replay_buffer is not set'')
   \<and> AsyncSampler_init (set_replay_buffer initializer_module 7) 2 = Inr \<lparr>workers = [0, 1], work_ids = [(0, None), (1, None)], replay_buffer = 7\<rparr>
   \<and> start_sampling \<lparr>workers = [0, 1], work_ids = [(0, None), (1, None)], replay_buffer = 7\<rparr> [] () \<infinity> 6 = Inr (\<lparr>workers = [0, 1], work_ids = [(0, Some 0), (1, Some 1)], replay_buffer = 7\<rparr>, [\<lparr>job_worker = 0, job_agent = (), job_max_frames = \<infinity>, job_max_episodes = 6\<rparr>, \<lparr>job_worker = 1, job_agent = (), job_max_frames = \<infinity>, job_max_episodes = 6\<rparr>])
   \<and> replay_buffer \<lparr>workers = [0, 1], work_ids = [(0, Some 0), (1, Some 1)], replay_buffer = 7\<rparr> = replay_buffer \<lparr>workers = [0, 1], work_ids = [(0, None), (1, None)], replay_buffer = 7\<rparr>
   \<and> store_samples \<lparr>workers = [0, 1], work_ids = [(0, Some 0), (1, Some 1)], replay_buffer = 7\<rparr> (ray_wait (\<lambda>i. False)) (\<lambda>i. Inr i) (\<lambda>b. []) = Inr (\<lparr>workers = [0, 1], work_ids = [(0, Some 0), (1, Some 1)], replay_buffer = 7\<rparr>, \<lambda>b. [], None)"
  using AsyncSampler_init_needs_replay_buffer
          [of initializer_module 2 7 "\<lparr>workers = [0, 1], work_ids = [(0, None), (1, None)], replay_buffer = 7\<rparr>" "[]" "()" \<infinity> 6 "\<lparr>workers = [0, 1], work_ids = [(0, Some 0), (1, Some 1)], replay_buffer = 7\<rparr>" "[\<lparr>job_worker = 0, job_agent = (), job_max_frames = \<infinity>, job_max_episodes = 6\<rparr>, \<lparr>job_worker = 1, job_agent = (), job_max_frames = \<infinity>, job_max_episodes = 6\<rparr>]"
              "ray_wait (\<lambda>i. False)" "\<lambda>i. Inr i" "\<lambda>b. []" "\<lparr>workers = [0, 1], work_ids = [(0, Some 0), (1, Some 1)], replay_buffer = 7\<rparr>" "\<lambda>b. []" None]
  by (simp add: initializer_module_def AsyncSampler_init_def set_replay_buffer_def
        get_replay_buffer_def upt_rec start_sampling_def sample_remote_def
        store_samples_def ray_wait_def)

subsection \<open>What \<^verbatim>\<open>store_samples\<close> returns and leaves behind\<close>

text \<open>
  C1: the run of \<^verbatim>\<open>test_sampler_episode\<close>: three workers, six episodes each, every job
  complete within the timeout. \<^verbatim>\<open>store_samples\<close> forwards the three batches to the
  replay buffer and returns \<^verbatim>\<open>None\<close>, not a record of frames and episodes.
\<close>

theorem store_samples_returns_None:
  "AsyncSampler_init (set_replay_buffer initializer_module 0) 3 = Inr \<lparr>workers = [0, 1, 2], work_ids = [(0, None), (1, None), (2, None)], replay_buffer = 0\<rparr>
   \<and> start_sampling \<lparr>workers = [0, 1, 2], work_ids = [(0, None), (1, None), (2, None)], replay_buffer = 0\<rparr> [] () \<infinity> 6 = Inr (\<lparr>workers = [0, 1, 2], work_ids = [(0, Some 0), (1, Some 1), (2, Some 2)], replay_buffer = 0\<rparr>, [\<lparr>job_worker = 0, job_agent = (), job_max_frames = \<infinity>, job_max_episodes = 6\<rparr>, \<lparr>job_worker = 1, job_agent = (), job_max_frames = \<infinity>, job_max_episodes = 6\<rparr>, \<lparr>job_worker = 2, job_agent = (), job_max_frames = \<infinity>, job_max_episodes = 6\<rparr>])
   \<and> (\<exists>h'. store_samples \<lparr>workers = [0, 1, 2], work_ids = [(0, Some 0), (1, Some 1), (2, Some 2)], replay_buffer = 0\<rparr> (ray_wait (\<lambda>i. True)) (\<lambda>i. Inr i) (\<lambda>b. []) = Inr (\<lparr>workers = [0, 1, 2], work_ids = [(0, Some 0), (1, Some 1), (2, Some 2)], replay_buffer = 0\<rparr>, h', None)
          \<and> h' 0 = [0, 1, 2])"
  by (simp add: initializer_module_def AsyncSampler_init_def set_replay_buffer_def
        get_replay_buffer_def upt_rec start_sampling_def sample_remote_def store_samples_def
        ray_wait_def buffer_store_def)

theorem store_samples_returns_None_witness:
  "\<exists>h'. store_samples \<lparr>workers = [0, 1, 2], work_ids = [(0, Some 0), (1, Some 1), (2, Some 2)], replay_buffer = 0\<rparr>
          (ray_wait (\<lambda>i. True)) (\<lambda>i. Inr i) (\<lambda>b. []) = Inr (\<lparr>workers = [0, 1, 2], work_ids = [(0, Some 0), (1, Some 1), (2, Some 2)], replay_buffer = 0\<rparr>, h', None)
        \<and> h' 0 = [0, 1, 2]"
  using store_samples_returns_None by blast

text \<open>
  C2: one worker whose job completes within the timeout. \<^verbatim>\<open>store_samples\<close> forwards
  the batch to the replay buffer, but the work id of the worker stays what it was: a
  second \<^verbatim>\<open>store_samples\<close> stores the same batch again, and the next
  \<^verbatim>\<open>start_sampling\<close> submits no job.
\<close>

theorem store_samples_leaves_unit_busy:
  "start_sampling \<lparr>workers = [0], work_ids = [(0, None)], replay_buffer = 0\<rparr> [] () \<infinity> 6 = Inr (\<lparr>workers = [0], work_ids = [(0, Some 0)], replay_buffer = 0\<rparr>, [\<lparr>job_worker = 0, job_agent = (), job_max_frames = \<infinity>, job_max_episodes = 6\<rparr>])
   \<and> (\<exists>h'. store_samples \<lparr>workers = [0], work_ids = [(0, Some 0)], replay_buffer = 0\<rparr> (ray_wait (\<lambda>i. True)) (\<lambda>i. Inr i) (\<lambda>b. []) = Inr (\<lparr>workers = [0], work_ids = [(0, Some 0)], replay_buffer = 0\<rparr>, h', None)
          \<and> h' 0 = [0]
          \<and> (\<exists>h''. store_samples \<lparr>workers = [0], work_ids = [(0, Some 0)], replay_buffer = 0\<rparr> (ray_wait (\<lambda>i. True)) (\<lambda>i. Inr i) h' = Inr (\<lparr>workers = [0], work_ids = [(0, Some 0)], replay_buffer = 0\<rparr>, h'', None)
               \<and> h'' 0 = [0, 0]))
   \<and> start_sampling \<lparr>workers = [0], work_ids = [(0, Some 0)], replay_buffer = 0\<rparr> [\<lparr>job_worker = 0, job_agent = (), job_max_frames = \<infinity>, job_max_episodes = 6\<rparr>] () \<infinity> 6 = Inr (\<lparr>workers = [0], work_ids = [(0, Some 0)], replay_buffer = 0\<rparr>, [\<lparr>job_worker = 0, job_agent = (), job_max_frames = \<infinity>, job_max_episodes = 6\<rparr>])"
  by (simp add: start_sampling_def sample_remote_def store_samples_def
        ray_wait_def buffer_store_def)

theorem store_samples_leaves_unit_busy_witness:
  "start_sampling \<lparr>workers = [0], work_ids = [(0, Some 0)], replay_buffer = 0\<rparr> [\<lparr>job_worker = 0, job_agent = (), job_max_frames = \<infinity>, job_max_episodes = 6\<rparr>] () \<infinity> 6 = Inr (\<lparr>workers = [0], work_ids = [(0, Some 0)], replay_buffer = 0\<rparr>, [\<lparr>job_worker = 0, job_agent = (), job_max_frames = \<infinity>, job_max_episodes = 6\<rparr>])"
  using store_samples_leaves_unit_busy by blast

text \<open>
  C9: a sampler with one worker, just constructed, so that the worker has no job.
  \<^verbatim>\<open>store_samples\<close> passes the work id \<^verbatim>\<open>None\<close> of the worker to \<^verbatim>\<open>ray.wait\<close>, which
  raises \<^verbatim>\<open>TypeError\<close>: the worker is not skipped.
\<close>

theorem store_samples_before_start_sampling_raises:
  "AsyncSampler_init (set_replay_buffer initializer_module 0) 1 = Inr \<lparr>workers = [0], work_ids = [(0, None)], replay_buffer = 0\<rparr>
   \<and> store_samples \<lparr>workers = [0], work_ids = [(0, None)], replay_buffer = 0\<rparr> (ray_wait (\<lambda>i. True)) (\<lambda>i. Inr (i::nat)) (\<lambda>b. []) = Inl TypeError"
  by (simp add: initializer_module_def AsyncSampler_init_def set_replay_buffer_def
        get_replay_buffer_def store_samples_def ray_wait_def)

section \<open>Properties of the sampling unit\<close>

lemma countdown_sel:
  "env_reset (countdown n) e = n" "env_step (countdown n) e a = e - 1"
  "env_done (countdown n) e \<longleftrightarrow> e = 0" "env_obs (countdown n) e = e"
  by (simp_all add: countdown_def)

lemma episode_loop_counters:
  fixes E :: "('e, 'act, 'obs) environment" and act :: "('g, 'obs, 'act) lazy_agent"
  assumes "episode_loop E act w a g = Some r"
  shows "frames w \<le> frames (fst r) \<and> episodes (fst r) = episodes w \<and> env_done E (env (fst r))"
proof (rule episode_loop.raw_induct
    [where P = "\<lambda>E act w a g r.
       frames w \<le> frames (fst r) \<and> episodes (fst r) = episodes w \<and> env_done E (env (fst r))",
     OF _ assms])
  fix loop :: "('e, 'act, 'obs) environment \<Rightarrow> ('g, 'obs, 'act) lazy_agent \<Rightarrow> 'e Worker \<Rightarrow> 'act
     \<Rightarrow> 'g \<Rightarrow> ('e Worker \<times> 'g) option"
  fix E act w a g r
  assume 1: "\<And>E act w a g y. loop E act w a g = Some y \<Longrightarrow>
      frames w \<le> frames (fst y) \<and> episodes (fst y) = episodes w \<and> env_done E (env (fst y))"
    "(if \<not> env_done E (env w)
      then case act g (env_obs E (env_step E (env w) a)) of
             (action', g') \<Rightarrow>
               loop E act (w\<lparr>env := env_step E (env w) a, frames := frames w + 1\<rparr>) action' g'
      else Some (w, g)) = Some r"
  show "frames w \<le> frames (fst r) \<and> episodes (fst r) = episodes w \<and> env_done E (env (fst r))"
  proof (cases "env_done E (env w)")
    case True
    with 1(2) show ?thesis by auto
  next
    case False
    obtain a' g1 where act: "act g (env_obs E (env_step E (env w) a)) = (a', g1)"
      by (cases "act g (env_obs E (env_step E (env w) a))")
    with 1(2) False
    have "loop E act (w\<lparr>env := env_step E (env w) a, frames := frames w + 1\<rparr>) a' g1 = Some r"
      by simp
    from 1(1)[OF this] show ?thesis by simp
  qed
qed

lemma episode_counters:
  assumes "episode E act w g = Some (w', g')"
  shows "frames w \<le> frames w' \<and> episodes w' = episodes w + 1 \<and> env_done E (env w')"
proof -
  obtain a0 g0 where act: "act g (env_obs E (env_reset E (env w))) = (a0, g0)"
    by (cases "act g (env_obs E (env_reset E (env w)))")
  with assms obtain w2 where
    ep: "episode_loop E act (w\<lparr>env := env_reset E (env w)\<rparr>) a0 g0 = Some (w2, g')"
    and w': "w' = w2\<lparr>episodes := episodes w2 + 1\<rparr>"
    by (auto simp: episode_def split: option.splits)
  from episode_loop_counters[OF ep] w' show ?thesis by simp
qed

lemma sample_loop_episode:
  "sample_loop E act mf me w g =
     (if lt (frames w) mf \<and> lt (episodes w) me
      then (case episode E act w g of
              None \<Rightarrow> None
            | Some (w1, g1) \<Rightarrow> sample_loop E act mf me w1 g1)
      else Some (w, g))"
  by (subst sample_loop.simps) (simp add: episode_def split: prod.splits option.splits)

lemma rollout_front:
  "rollout E act (Suc k) w g =
     (case episode E act w g of
        None \<Rightarrow> None
      | Some (w1, g1) \<Rightarrow> rollout E act k w1 g1)"
proof (induction k)
  case 0
  show ?case by (simp split: option.splits)
next
  case (Suc k)
  have "rollout E act (Suc (Suc k)) w g =
      (case rollout E act (Suc k) w g of None \<Rightarrow> None | Some (w1, g1) \<Rightarrow> episode E act w1 g1)"
    by simp
  also have "\<dots> = (case episode E act w g of
        None \<Rightarrow> None
      | Some (w1, g1) \<Rightarrow> rollout E act (Suc k) w1 g1)"
    by (simp only: Suc.IH) (simp split: option.splits)
  finally show ?case .
qed

lemma rollout_counters:
  "rollout E act k w g = Some (w', g') \<Longrightarrow>
     frames w \<le> frames w' \<and> episodes w' = episodes w + k"
proof (induction k arbitrary: w' g')
  case 0
  then show ?case by simp
next
  case (Suc k)
  from Suc.prems obtain w1 g1 where
    r: "rollout E act k w g = Some (w1, g1)" and e: "episode E act w1 g1 = Some (w', g')"
    by (auto split: option.splits)
  from Suc.IH[OF r] episode_counters[OF e] show ?case by simp
qed

lemma sample_loop_rollout:
  fixes E :: "('e, 'act, 'obs) environment" and act :: "('g, 'obs, 'act) lazy_agent"
  assumes "sample_loop E act mf me w g = Some r"
  shows "\<exists>k. rollout E act k w g = Some r
           \<and> \<not> (lt (frames (fst r)) mf \<and> lt (episodes (fst r)) me)
           \<and> (\<forall>j<k. \<exists>wj gj. rollout E act j w g = Some (wj, gj)
                          \<and> lt (frames wj) mf \<and> lt (episodes wj) me)"
proof (rule sample_loop.raw_induct
    [where P = "\<lambda>(E :: ('e, 'act, 'obs) environment) (act :: ('g, 'obs, 'act) lazy_agent)
                  mf me w g r.
       \<exists>k. rollout E act k w g = Some r
           \<and> \<not> (lt (frames (fst r)) mf \<and> lt (episodes (fst r)) me)
           \<and> (\<forall>j<k. \<exists>wj gj. rollout E act j w g = Some (wj, gj)
                          \<and> lt (frames wj) mf \<and> lt (episodes wj) me)",
     OF _ assms])
  fix loop :: "('e, 'act, 'obs) environment \<Rightarrow> ('g, 'obs, 'act) lazy_agent \<Rightarrow> number \<Rightarrow> number
     \<Rightarrow> 'e Worker \<Rightarrow> 'g \<Rightarrow> ('e Worker \<times> 'g) option"
  fix E :: "('e, 'act, 'obs) environment" and act :: "('g, 'obs, 'act) lazy_agent"
  fix mf me w g r
  assume IH: "\<And>E act mf me w g y. loop E act mf me w g = Some y \<Longrightarrow>
       \<exists>k. rollout E act k w g = Some y
           \<and> \<not> (lt (frames (fst y)) mf \<and> lt (episodes (fst y)) me)
           \<and> (\<forall>j<k. \<exists>wj gj. rollout E act j w g = Some (wj, gj)
                          \<and> lt (frames wj) mf \<and> lt (episodes wj) me)"
  assume body: "(if lt (frames w) mf \<and> lt (episodes w) me
        then case act g (env_obs E (env_reset E (env w))) of
             (a1, g1) \<Rightarrow>
               case episode_loop E act (w\<lparr>env := env_reset E (env w)\<rparr>) a1 g1 of
               None \<Rightarrow> None
               | Some (w2, g2) \<Rightarrow>
                   loop E act mf me (w2\<lparr>episodes := episodes w2 + 1\<rparr>) g2
        else Some (w, g)) = Some r"
  show "\<exists>k. rollout E act k w g = Some r
           \<and> \<not> (lt (frames (fst r)) mf \<and> lt (episodes (fst r)) me)
           \<and> (\<forall>j<k. \<exists>wj gj. rollout E act j w g = Some (wj, gj)
                          \<and> lt (frames wj) mf \<and> lt (episodes wj) me)"
  proof (cases "lt (frames w) mf \<and> lt (episodes w) me")
    case False
    with body have r: "r = (w, g)" by auto
    have "rollout E act 0 w g = Some r
           \<and> \<not> (lt (frames (fst r)) mf \<and> lt (episodes (fst r)) me)
           \<and> (\<forall>j<0. \<exists>wj gj. rollout E act j w g = Some (wj, gj)
                          \<and> lt (frames wj) mf \<and> lt (episodes wj) me)"
      using False r by simp
    then show ?thesis by (rule exI)
  next
    case True
    from body True obtain w1 g1 where
      ep: "episode E act w g = Some (w1, g1)"
      and rest: "loop E act mf me w1 g1 = Some r"
      by (auto simp: episode_def split: prod.splits option.splits)
    from IH[OF rest] obtain k where
      k1: "rollout E act k w1 g1 = Some r"
      and k2: "\<not> (lt (frames (fst r)) mf \<and> lt (episodes (fst r)) me)"
      and k3: "\<forall>j<k. \<exists>wj gj. rollout E act j w1 g1 = Some (wj, gj)
                          \<and> lt (frames wj) mf \<and> lt (episodes wj) me"
      by blast
    have a: "rollout E act (Suc k) w g = Some r"
      using ep k1 by (simp only: rollout_front) simp
    have c: "\<exists>wj gj. rollout E act j w g = Some (wj, gj)
                          \<and> lt (frames wj) mf \<and> lt (episodes wj) me" if "j < Suc k" for j
    proof (cases j)
      case 0
      with True show ?thesis by simp
    next
      case (Suc j')
      with that have "j' < k" by simp
      with k3 obtain wj gj where "rollout E act j' w1 g1 = Some (wj, gj)"
        "lt (frames wj) mf" "lt (episodes wj) me" by blast
      then show ?thesis using ep Suc by (simp only: rollout_front) simp
    qed
    from a k2 c show ?thesis by blast
  qed
qed

lemma countdown_episode:
  "episode_loop (countdown 5) recorder \<lparr>env = 5, frames = 0, episodes = 0\<rparr> () [5]
     = Some (\<lparr>env = 0, frames = 5, episodes = 0\<rparr>, [5, 4, 3, 2, 1, 0])"
  by (subst episode_loop.simps, simp add: countdown_sel recorder_def)+

lemma countdown_episode_rest:
  "episode_loop (countdown 5) recorder \<lparr>env = 3, frames = 2, episodes = 0\<rparr> () [5, 4, 3]
     = Some (\<lparr>env = 0, frames = 5, episodes = 0\<rparr>, [5, 4, 3, 2, 1, 0])"
  by (subst episode_loop.simps, simp add: countdown_sel recorder_def)+

lemma countdown_sample:
  "sample (countdown 5) recorder \<lparr>env = 0, frames = 0, episodes = 0\<rparr> [] (Num 2) PosInf
     = Some (\<lparr>env = 0, frames = 5, episodes = 1\<rparr>, [5, 4, 3, 2, 1, 0])"
  unfolding sample_def
  by (subst sample_loop.simps,
      simp add: countdown_episode countdown_sel recorder_def)+

lemma countdown_first_episode:
  "episode (countdown 5) recorder \<lparr>env = 0, frames = 0, episodes = 0\<rparr> []
     = Some (\<lparr>env = 0, frames = 5, episodes = 1\<rparr>, [5, 4, 3, 2, 1, 0])"
  by (simp add: episode_def countdown_episode countdown_sel recorder_def)

lemma short_episode:
  "episode (countdown (Suc 0)) recorder \<lparr>env = 0, frames = n, episodes = k\<rparr> g
     = Some (\<lparr>env = 0, frames = Suc n, episodes = Suc k\<rparr>, g @ [Suc 0, 0])"
  unfolding episode_def
  by (subst episode_loop.simps, simp add: countdown_sel recorder_def)+

lemma short_sample:
  "sample (countdown 1) recorder \<lparr>env = 0, frames = 0, episodes = 0\<rparr> [] PosInf (Num (5 / 2))
     = Some (\<lparr>env = 0, frames = 3, episodes = 3\<rparr>, [1, 0, 1, 0, 1, 0])"
  unfolding sample_def
  by (subst sample_loop_episode, simp add: short_episode)+

text \<open>
  C3, as the code has it: both budgets are tested only between episodes, before the next
  episode starts, and an episode once started runs until the environment reports its end.
  So when \<^verbatim>\<open>Worker.sample\<close> returns, it has run whole episodes only, as many as its
  episode counter says, and the loop condition fails in the state returned. Every one of
  these episodes started from the state the episodes before it had left, with the frames
  below \<^verbatim>\<open>max_frames\<close> and the episodes below \<^verbatim>\<open>max_episodes\<close>. Hence, when an episode
  was run, the frames exceed a finite \<^verbatim>\<open>max_frames\<close> by less than the frames of the last
  episode, and the episodes exceed a finite \<^verbatim>\<open>max_episodes\<close> by less than one.
\<close>

theorem sample_budgets_checked_between_episodes:
  fixes E :: "('e, 'act, 'obs) environment" and act :: "('g, 'obs, 'act) lazy_agent"
  assumes "sample E act w g max_frames max_episodes = Some (w', g')"
  shows "rollout E act (episodes w') (w\<lparr>frames := 0, episodes := 0\<rparr>) g = Some (w', g')
    \<and> \<not> (lt (frames w') max_frames \<and> lt (episodes w') max_episodes)
    \<and> (\<forall>j<episodes w'. \<exists>wj gj.
          rollout E act j (w\<lparr>frames := 0, episodes := 0\<rparr>) g = Some (wj, gj)
          \<and> episodes wj = j \<and> frames wj \<le> frames w'
          \<and> lt (frames wj) max_frames \<and> lt j max_episodes)
    \<and> (0 < episodes w' \<longrightarrow>
         (\<exists>w0 g0.
            rollout E act (episodes w' - 1) (w\<lparr>frames := 0, episodes := 0\<rparr>) g = Some (w0, g0)
            \<and> episode E act w0 g0 = Some (w', g')
            \<and> frames w0 \<le> frames w'
            \<and> (\<forall>x. max_frames = Num x \<longrightarrow>
                  real (frames w') < x + real (frames w' - frames w0))
            \<and> (\<forall>x. max_episodes = Num x \<longrightarrow> real (episodes w') < x + 1)))"
proof -
  let ?s = "w\<lparr>frames := 0, episodes := 0\<rparr>"
  from assms have run: "sample_loop E act max_frames max_episodes ?s g = Some (w', g')"
    by (simp add: sample_def)
  from sample_loop_rollout[OF run] obtain k where
    k1: "rollout E act k ?s g = Some (w', g')"
    and k2: "\<not> (lt (frames w') max_frames \<and> lt (episodes w') max_episodes)"
    and k3: "\<forall>j<k. \<exists>wj gj. rollout E act j ?s g = Some (wj, gj)
                      \<and> lt (frames wj) max_frames \<and> lt (episodes wj) max_episodes"
    by auto
  from rollout_counters[OF k1] have k: "k = episodes w'" by simp
  have started: "\<exists>wj gj. rollout E act j ?s g = Some (wj, gj)
          \<and> episodes wj = j \<and> frames wj \<le> frames w'
          \<and> lt (frames wj) max_frames \<and> lt j max_episodes
          \<and> (j + 1 = episodes w' \<longrightarrow> episode E act wj gj = Some (w', g'))"
    if j: "j < episodes w'" for j
  proof -
    from k3 j k obtain wj gj where
      r: "rollout E act j ?s g = Some (wj, gj)"
      and b: "lt (frames wj) max_frames" "lt (episodes wj) max_episodes"
      by blast
    from rollout_counters[OF r] have e: "episodes wj = j" by simp
    define d where "d = episodes w' - j"
    with j have d: "episodes w' = j + d" by simp
    have mono: "frames wj \<le> frames w'"
    proof -
      have "\<And>v h. rollout E act (j + n) ?s g = Some (v, h) \<Longrightarrow> frames wj \<le> frames v" for n
      proof (induction n)
        case 0
        with r show ?case by simp
      next
        case (Suc n)
        from Suc.prems obtain v1 h1 where
          r1: "rollout E act (j + n) ?s g = Some (v1, h1)"
          and e1: "episode E act v1 h1 = Some (v, h)"
          by (auto split: option.splits)
        from Suc.IH[OF r1] episode_counters[OF e1] show ?case by simp
      qed
      from this[of d w' g'] k1 k d show ?thesis by simp
    qed
    have last: "episode E act wj gj = Some (w', g')" if "j + 1 = episodes w'"
    proof -
      from that k k1 have "rollout E act (Suc j) ?s g = Some (w', g')" by simp
      with r show ?thesis by simp
    qed
    from r e mono b last show ?thesis by auto
  qed
  show ?thesis
  proof (intro conjI allI impI)
    show "rollout E act (episodes w') ?s g = Some (w', g')" using k1 k by simp
    show "\<not> (lt (frames w') max_frames \<and> lt (episodes w') max_episodes)" by (rule k2)
    show "\<exists>wj gj. rollout E act j ?s g = Some (wj, gj)
          \<and> episodes wj = j \<and> frames wj \<le> frames w'
          \<and> lt (frames wj) max_frames \<and> lt j max_episodes" if "j < episodes w'" for j
      using started[OF that] by blast
    show "\<exists>w0 g0.
            rollout E act (episodes w' - 1) ?s g = Some (w0, g0)
            \<and> episode E act w0 g0 = Some (w', g')
            \<and> frames w0 \<le> frames w'
            \<and> (\<forall>x. max_frames = Num x \<longrightarrow>
                  real (frames w') < x + real (frames w' - frames w0))
            \<and> (\<forall>x. max_episodes = Num x \<longrightarrow> real (episodes w') < x + 1)"
      if pos: "0 < episodes w'"
    proof -
      from pos have j: "episodes w' - 1 < episodes w'" by simp
      from started[OF j] pos obtain w0 g0 where
        r: "rollout E act (episodes w' - 1) ?s g = Some (w0, g0)"
        and f: "frames w0 \<le> frames w'"
        and b: "lt (frames w0) max_frames" "lt (episodes w' - 1) max_episodes"
        and e: "episode E act w0 g0 = Some (w', g')"
        by auto
      have bf: "real (frames w') < x + real (frames w' - frames w0)" if "max_frames = Num x" for x
        using b(1) f that by (simp add: of_nat_diff)
      have be: "real (episodes w') < x + 1" if "max_episodes = Num x" for x
        using b(2) pos that by (simp add: of_nat_diff)
      from r e f bf be show ?thesis by blast
    qed
  qed
qed

theorem sample_budgets_checked_between_episodes_witness:
  "sample (countdown 5) recorder \<lparr>env = 0, frames = 0, episodes = 0\<rparr> [] (Num 2) PosInf
     = Some (\<lparr>env = 0, frames = 5, episodes = 1\<rparr>, [5, 4, 3, 2, 1, 0])
   \<and> rollout (countdown 5) recorder 0 \<lparr>env = 0, frames = 0, episodes = 0\<rparr> []
     = Some (\<lparr>env = 0, frames = 0, episodes = 0\<rparr>, [])
   \<and> episode (countdown 5) recorder \<lparr>env = 0, frames = 0, episodes = 0\<rparr> []
     = Some (\<lparr>env = 0, frames = 5, episodes = 1\<rparr>, [5, 4, 3, 2, 1, 0])
   \<and> lt 0 (Num 2) \<and> lt 5 (Num 2) = False \<and> (5 :: real) < 2 + real (5 - 0)
   \<and> sample (countdown 1) recorder \<lparr>env = 0, frames = 0, episodes = 0\<rparr> [] PosInf (Num (5 / 2))
     = Some (\<lparr>env = 0, frames = 3, episodes = 3\<rparr>, [1, 0, 1, 0, 1, 0])
   \<and> rollout (countdown 1) recorder 2 \<lparr>env = 0, frames = 0, episodes = 0\<rparr> []
     = Some (\<lparr>env = 0, frames = 2, episodes = 2\<rparr>, [1, 0, 1, 0])
   \<and> episode (countdown 1) recorder \<lparr>env = 0, frames = 2, episodes = 2\<rparr> [1, 0, 1, 0]
     = Some (\<lparr>env = 0, frames = 3, episodes = 3\<rparr>, [1, 0, 1, 0, 1, 0])
   \<and> lt 2 (Num (5 / 2)) \<and> lt 3 (Num (5 / 2)) = False \<and> (3 :: real) < 5 / 2 + 1"
  using sample_budgets_checked_between_episodes [OF countdown_sample]
    sample_budgets_checked_between_episodes [OF short_sample]
    countdown_sample short_sample
  by (simp add: countdown_first_episode short_episode eval_nat_numeral)

text \<open>
  C3, as the claim has it, fails: with \<^verbatim>\<open>max_frames = 2\<close> and episodes of five steps the
  worker returns five frames. After the second step the frame count is no longer below the
  budget, and the episode loop takes the three steps left all the same: the frame budget
  is not tested after a step.
\<close>

theorem sample_steps_past_frame_budget:
  "sample (countdown 5) recorder \<lparr>env = 0, frames = 0, episodes = 0\<rparr> [] (Num 2) PosInf
     = Some (\<lparr>env = 0, frames = 5, episodes = 1\<rparr>, [5, 4, 3, 2, 1, 0])
   \<and> lt (frames \<lparr>env = 3::nat, frames = 2, episodes = 0\<rparr>) (Num 2) = False
   \<and> episode_loop (countdown 5) recorder \<lparr>env = 3, frames = 2, episodes = 0\<rparr> () [5, 4, 3]
     = Some (\<lparr>env = 0, frames = 5, episodes = 0\<rparr>, [5, 4, 3, 2, 1, 0])"
  using countdown_sample countdown_episode_rest by simp

section \<open>Properties of the replay buffers\<close>

lemmas nstep_simps =
  NStep_store_def flush_def store_def synthesize_def NStepReplayBuffer_def
  ExperienceReplayBuffer_def NStep_len_def len_def Let_def

lemma nstep_return_Nil: "nstep_return gamma [] = 0"
  by (simp add: nstep_return_def)

lemma nstep_return_Cons: "nstep_return gamma (r # rs) = r + gamma * nstep_return gamma rs"
  by (simp add: nstep_return_def sum.lessThan_Suc_shift sum_distrib_left mult.assoc
        del: sum.lessThan_Suc)

lemma store_append:
  "length (buffer b) < capacity b \<Longrightarrow> buffer (store b t) = buffer b @ [t]"
  by (simp add: store_def)

lemma store_capacity: "capacity (store b t) = capacity b"
  by (simp add: store_def)

lemma flush_all_buffer:
  "length (buffer b) + length w \<le> capacity b \<Longrightarrow>
     buffer (flush_all gamma w b)
       = buffer b @ map (\<lambda>i. synthesize gamma (drop i w)) [0..<length w]"
proof (induction w arbitrary: b)
  case Nil
  then show ?case by simp
next
  case (Cons t w)
  let ?b = "store b (synthesize gamma (t # w))"
  from Cons.prems have room: "length (buffer b) < capacity b" by simp
  then have b1: "buffer ?b = buffer b @ [synthesize gamma (t # w)]"
    by (rule store_append)
  with Cons.prems have "length (buffer ?b) + length w \<le> capacity ?b"
    by (simp add: store_capacity)
  from Cons.IH[OF this] b1
  have "buffer (flush_all gamma (t # w) b)
      = buffer b @ synthesize gamma (t # w) # map (\<lambda>i. synthesize gamma (drop i w)) [0..<length w]"
    by simp
  also have "map (\<lambda>i. synthesize gamma (drop i w)) [0..<length w]
      = map (\<lambda>i. synthesize gamma (drop i (t # w))) [Suc 0..<Suc (length w)]"
    by (simp add: map_Suc_upt[symmetric] del: upt_Suc)
  finally show ?case
    by (simp add: upt_rec[of 0] del: upt_Suc)
qed

lemma NStep_store_terminal:
  "\<not> mask (next_state t) \<Longrightarrow>
     inner (NStep_store nb t) = flush_all (discount_factor nb) (window nb @ [t]) (inner nb)
     \<and> window (NStep_store nb t) = []"
  by (cases "window nb") (simp_all add: NStep_store_def flush_def Let_def)

lemma test_done_3:
  "window (test_done 3) = [running, running] \<and> len (inner (test_done 3)) = 1
   \<and> capacity (inner (test_done 3)) = 100 \<and> steps (test_done 3) = 4"
  by (simp add: test_done_def nstep_simps nstep_return_Nil nstep_return_Cons
        terminal_def running_def)

text \<open>
  C4.  With four steps and discount one half, storing the transitions with rewards
  0, 1, 2, 3, 4, 5 in turn leaves the inner buffer empty for the first three stores and then
  adds one synthesized transition per store.  The first has the state and action of
  transition 0, the next state of transition 3 and the reward
  \<open>0 + 1 * 0.5 + 2 * 0.25 + 3 * 0.125 = 1.375\<close>; the second has the state and action of
  transition 1, the next state of transition 4 and the reward
  \<open>1 + 2 * 0.5 + 3 * 0.25 + 4 * 0.125 = 3.25\<close>.
\<close>

theorem nstep_first_flushed_rewards:
  "map (\<lambda>n. NStep_len (test_run n)) [0, 1, 2, 3, 4, 5, 6] = [0, 0, 0, 0, 1, 2, 3]
   \<and> buffer (inner (test_run 6)) ! 0
       = \<lparr>state = state (raw 0), action = action (raw 0), reward = 11 / 8,
          next_state = next_state (raw 3)\<rparr>
   \<and> buffer (inner (test_run 6)) ! 1
       = \<lparr>state = state (raw 1), action = action (raw 1), reward = 13 / 4,
          next_state = next_state (raw 4)\<rparr>
   \<and> (11 / 8 :: real) = 0 + 1 * (1 / 2) + 2 * (1 / 2) ^ 2 + 3 * (1 / 2) ^ 3
   \<and> (13 / 4 :: real) = 1 + 2 * (1 / 2) + 3 * (1 / 2) ^ 2 + 4 * (1 / 2) ^ 3"
  by (simp add: test_run_def upt_rec nstep_simps nstep_return_Nil nstep_return_Cons raw_def
        power2_eq_square power3_eq_cube)

text \<open>
  C4, as the specification states it, fails: the first two synthesized rewards are not
  0.875 and 2.75.
\<close>

theorem nstep_first_flushed_rewards_not_as_stated:
  "reward (buffer (inner (test_run 6)) ! 0) \<noteq> 875 / 1000
   \<and> reward (buffer (inner (test_run 6)) ! 1) \<noteq> 275 / 100"
  by (simp add: test_run_def upt_rec nstep_simps nstep_return_Nil nstep_return_Cons raw_def)

text \<open>
  C5.  While the inner buffer has room, a terminal transition flushes every pending window:
  with \<open>k\<close> transitions pending before it, the store adds \<open>k + 1\<close> synthesized transitions,
  window \<open>i\<close> running from pending transition \<open>i\<close> to the terminal one, and empties the
  window; so exactly one flush happens only when nothing was pending.  A transition that is
  not terminal causes one flush when it fills the window and none otherwise.  The length of
  the inner buffer grows by one per flush.
\<close>

theorem NStep_store_flushes_every_pending_window:
  assumes "len (inner nb) + length (window nb) + 1 \<le> capacity (inner nb)"
  shows "(\<not> mask (next_state t) \<longrightarrow>
            NStep_len (NStep_store nb t) = NStep_len nb + (length (window nb) + 1)
          \<and> window (NStep_store nb t) = []
          \<and> buffer (inner (NStep_store nb t))
              = buffer (inner nb)
                @ map (\<lambda>i. synthesize (discount_factor nb) (drop i (window nb @ [t])))
                    [0..<length (window nb) + 1])
       \<and> (mask (next_state t) \<longrightarrow>
            NStep_len (NStep_store nb t)
              = NStep_len nb + (if length (window nb) + 1 = steps nb then 1 else 0))"
proof (intro conjI impI)
  assume last_step: "\<not> mask (next_state t)"
  from assms have room:
    "length (buffer (inner nb)) + length (window nb @ [t]) \<le> capacity (inner nb)"
    by (simp add: len_def)
  have buf: "buffer (inner (NStep_store nb t))
      = buffer (inner nb)
        @ map (\<lambda>i. synthesize (discount_factor nb) (drop i (window nb @ [t])))
            [0..<length (window nb) + 1]"
    using NStep_store_terminal[OF last_step, of nb]
      flush_all_buffer[OF room, of "discount_factor nb"]
    by simp
  show "buffer (inner (NStep_store nb t))
      = buffer (inner nb)
        @ map (\<lambda>i. synthesize (discount_factor nb) (drop i (window nb @ [t])))
            [0..<length (window nb) + 1]"
    by (rule buf)
  show "NStep_len (NStep_store nb t) = NStep_len nb + (length (window nb) + 1)"
    by (simp add: NStep_len_def len_def buf)
  show "window (NStep_store nb t) = []"
    using NStep_store_terminal[OF last_step, of nb] by simp
next
  assume run: "mask (next_state t)"
  from assms have "length (buffer (inner nb)) < capacity (inner nb)"
    by (simp add: len_def)
  then show "NStep_len (NStep_store nb t)
      = NStep_len nb + (if length (window nb) + 1 = steps nb then 1 else 0)"
    using run by (simp add: NStep_store_def flush_def Let_def NStep_len_def len_def store_append)
qed

theorem NStep_store_flushes_every_pending_window_witness:
  "len (inner (test_done 3)) + length (window (test_done 3)) + 1 \<le> capacity (inner (test_done 3))
   \<and> mask (next_state terminal) = False
   \<and> NStep_len (NStep_store (test_done 3) terminal) = NStep_len (test_done 3) + 3
   \<and> window (NStep_store (test_done 3) terminal) = []
   \<and> mask (next_state running) = True
   \<and> NStep_len (NStep_store (test_done 3) running) = NStep_len (test_done 3)"
  using NStep_store_flushes_every_pending_window [of "test_done 3" terminal]
    NStep_store_flushes_every_pending_window [of "test_done 3" running]
  by (simp add: test_done_3 terminal_def running_def)

text \<open>
  C5, as the specification states it, fails: in \<^verbatim>\<open>test_done\<close> the fourth store is terminal
  and arrives with two transitions pending, fewer than the four steps; that single store
  performs three flushes and the length of the inner buffer goes from 1 to 4.
\<close>

theorem nstep_terminal_store_flushes_three_windows:
  "window (test_done 3) = [running, running]
   \<and> steps (test_done 3) = 4
   \<and> mask (next_state terminal) = False
   \<and> NStep_len (test_done 3) = 1
   \<and> NStep_len (NStep_store (test_done 3) terminal) = 4
   \<and> map reward (buffer (inner (NStep_store (test_done 3) terminal))) = [1, 7 / 4, 3 / 2, 1]"
  by (simp add: test_done_def nstep_simps nstep_return_Nil nstep_return_Cons
        terminal_def running_def)


lemma almost_equal_maximum_below_one:
  assumes "assert_array_almost_equal x y decimal"
    and "\<forall>a\<in>set x. a + 15 / 10 ^ (decimal + 1) \<le> 1"
    and "y \<noteq> []"
  shows "Max (set y) < 1"
proof -
  have "b < 1" if "b \<in> set y" for b
  proof -
    from that obtain i where i: "i < length y" and b: "b = y ! i"
      by (auto simp: in_set_conv_nth)
    from assms(1) have len: "length x = length y"
      and near: "\<bar>x ! i - y ! i\<bar> < 15 / 10 ^ (decimal + 1)"
      using i by (auto simp: assert_array_almost_equal_def list_all2_conv_all_nth)
    from i len have "x ! i \<in> set x" by simp
    with assms(2) have "x ! i + 15 / 10 ^ (decimal + 1) \<le> 1" by blast
    with near b show ?thesis by linarith
  qed
  with assms(3) show ?thesis by simp
qed

lemma test_run_batches_below_one:
  assumes "row \<in> set (tl expected_weights)"
    and "assert_array_almost_equal row ws 3"
  shows "ws \<noteq> [] \<and> Max (set ws) < 1"
proof -
  from assms(1) have three: "length row = 3" and small: "\<forall>a\<in>set row. a + 15 / 10 ^ (3 + 1) \<le> 1"
    by (auto simp: expected_weights_def)
  from assms(2) have "length ws = length row"
    by (simp add: assert_array_almost_equal_def list_all2_lengthD)
  with three have ne: "ws \<noteq> []" by auto
  from almost_equal_maximum_below_one[OF assms(2) small ne] ne show ?thesis by simp
qed







end
